theory Spec2Isabelle
  imports Complex_Main "HOL-Library.Word" "HOL-Library.Sublist"
begin

section \<open>Strings and values of the host language\<close>

text \<open>
  A JavaScript string is a sequence of 16-bit code units. Literals of the source that
  are plain ASCII are written with \<open>ascii\<close>; the others are spelled out code unit by
  code unit, with the source literal in the comment.
\<close>

type_synonym jschar = "16 word"
type_synonym jsstring = "jschar list"

definition ascii :: "string \<Rightarrow> jsstring" where
  "ascii s = map of_char s"

text \<open>
  The values a JSON payload can put at a scalar position: a missing key reads as
  \<open>undefined\<close>, numbers are the (rational) values of the parsed doubles.
\<close>

datatype jsval = JUndefined | JNull | JBool bool | JNum rat | JStr jsstring

text \<open>Truthiness, as \<open>&&\<close>, \<open>||\<close>, \<open>!\<close> and \<open>if\<close> coerce a value.\<close>

fun truthy :: "jsval \<Rightarrow> bool" where
  "truthy JUndefined = False"
| "truthy JNull = False"
| "truthy (JBool b) = b"
| "truthy (JNum n) = (n \<noteq> 0)"
| "truthy (JStr s) = (s \<noteq> [])"

text \<open>
  A text field of a record is a string or is missing (\<open>None\<close>: the key is not there,
  or holds \<open>null\<close>). A missing field and the empty string are both falsy.
\<close>

type_synonym jstext = "jsstring option"

definition present :: "jstext \<Rightarrow> bool" where
  "present v = (case v of None \<Rightarrow> False | Some s \<Rightarrow> s \<noteq> [])"

text \<open>\<open>v || d\<close> for a text field \<open>v\<close> and a string literal \<open>d\<close>.\<close>

definition orElse :: "jstext \<Rightarrow> jsstring \<Rightarrow> jsstring" where
  "orElse v d = (case v of None \<Rightarrow> d | Some s \<Rightarrow> if s \<noteq> [] then s else d)"

text \<open>\<open>s.replace(/\n/g, ' ')\<close> and \<open>s.replace(/"/g, '""')\<close>.\<close>

definition newlineToSpace :: "jsstring \<Rightarrow> jsstring" where
  "newlineToSpace s = map (\<lambda>c. if c = 0x0A then 0x20 else c) s"

definition doubleQuotes :: "jsstring \<Rightarrow> jsstring" where
  "doubleQuotes s = concat (map (\<lambda>c. if c = 0x22 then [0x22, 0x22] else [c]) s)"

text \<open>\<open>hay.includes(needle)\<close>: the needle occurs as a contiguous run of the haystack.\<close>

definition includesStr :: "jsstring \<Rightarrow> jsstring \<Rightarrow> bool" where
  "includesStr hay needle = sublist needle hay"

text \<open>\<open>xs.join(sep)\<close> on an array of strings.\<close>

fun join :: "jsstring \<Rightarrow> jsstring list \<Rightarrow> jsstring" where
  "join sep [] = []"
| "join sep [x] = x"
| "join sep (x # y # ys) = x @ sep @ join sep (y # ys)"

text \<open>
  \<open>s.trim()\<close> removes white space and line terminators from both ends. The code units
  below are the ones ECMAScript lists (TAB, LF, VT, FF, CR, SP, NBSP, the Unicode
  space separators, LS, PS and the byte-order mark).
\<close>

definition isWhiteSpace :: "jschar \<Rightarrow> bool" where
  "isWhiteSpace c =
     (c \<in> set [0x09, 0x0A, 0x0B, 0x0C, 0x0D, 0x20, 0xA0, 0x1680, 0x2028, 0x2029,
                0x202F, 0x205F, 0x3000, 0xFEFF]
      \<or> (0x2000 \<le> c \<and> c \<le> 0x200A))"

definition trim :: "jsstring \<Rightarrow> jsstring" where
  "trim s = rev (dropWhile isWhiteSpace (rev (dropWhile isWhiteSpace s)))"

text \<open>
  \<open>String.prototype.toLowerCase\<close> is the platform's Unicode case mapping; the functions
  that call it take it as the parameter \<open>lower\<close>. On strings of ASCII code units it is
  the map below, which the concrete evaluations use.
\<close>

definition asciiLower :: "jsstring \<Rightarrow> jsstring" where
  "asciiLower s = map (\<lambda>c. if 0x41 \<le> c \<and> c \<le> 0x5A then c + 0x20 else c) s"

section \<open>The record model\<close>

text \<open>
  The optional AI annotation of a record (key \<open>ai_suggestion\<close>). The markers \<open>error\<close>
  and \<open>parse_error\<close> are only tested for truthiness. The list of actions is an array
  of strings or a single text. The fields and the keys they stand for:
  \<open>ai_error\<close> \<open>error\<close>, \<open>ai_parse_error\<close> \<open>parse_error\<close>, \<open>ai_raw_response\<close> \<open>raw_response\<close>,
  \<open>ai_corePlain\<close> 0x6838 0x5FC3 0x8981 0x6C42 0x767D 0x8A71 0x6587,
  \<open>ai_core\<close> 0x6838 0x5FC3 0x8981 0x6C42,
  \<open>ai_gapOrDiagnosis\<close> 0x5DEE 0x7570 0x5206 0x6790 0x6216 0x73FE 0x6CC1 0x8A3A 0x65B7,
  \<open>ai_gap\<close> 0x5DEE 0x7570 0x5206 0x6790,
  \<open>ai_actions\<close> 0x5177 0x9AD4 0x884C 0x52D5 0x8207 0x63ED 0x9732 0x6E05 0x55AE,
  \<open>ai_references\<close> 0x5B98 0x65B9 0x53C3 0x8003 0x8207 0x8F03 0x4F73 0x6848 0x4F8B,
  \<open>ai_assignment\<close> 0x5206 0x6D3E 0x5EFA 0x8B70.
\<close>

datatype actions = ActionItems "jsstring list" | ActionText jstext

record aiSuggestion =
  ai_error :: jsval
  ai_parse_error :: jsval
  ai_raw_response :: jstext
  ai_corePlain :: jstext
  ai_core :: jstext
  ai_gapOrDiagnosis :: jstext
  ai_gap :: jstext
  ai_actions :: actions
  ai_references :: jstext
  ai_assignment :: jstext

text \<open>
  One indicator record. The fields and the keys they stand for:
  \<open>ident\<close> 0x7DE8 0x865F (the indicator code), \<open>statusTag\<close> 0x72C0 0x614B 0x6A19 0x8A18,
  \<open>face\<close> 0x69CB 0x9762, \<open>title\<close> 0x8A55 0x9451 0x6307 0x6A19,
  \<open>description\<close> 0x6307 0x6A19 0x8AAA 0x660E, \<open>questionType\<close> 0x984C 0x578B,
  \<open>scoreText\<close> \<open>114_\<close> 0x81EA 0x8A55 0x5F97 0x5206,
  \<open>scoreNumeric\<close> \<open>114_\<close> 0x5F97 0x5206 0x6578 0x503C,
  \<open>department\<close> \<open>114_\<close> 0x76F8 0x95DC 0x8CA0 0x8CAC 0x90E8 0x9580,
  \<open>selfEvalNote\<close> \<open>114_\<close> 0x81EA 0x8A55 0x4F86 0x6E90 0x53CA 0x8AAA 0x660E,
  \<open>ai_suggestion\<close> \<open>ai_suggestion\<close>.
\<close>

record indicator =
  ident :: jstext
  statusTag :: jstext
  face :: jstext
  title :: jstext
  description :: jstext
  questionType :: jstext
  scoreText :: jstext
  scoreNumeric :: jsval
  department :: jstext
  selfEvalNote :: jstext
  ai_suggestion :: "aiSuggestion option"

definition New_2026 :: jsstring where
  "New_2026 = ascii ''New_2026''"

definition Modified_2026 :: jsstring where
  "Modified_2026 = ascii ''Modified_2026''"

text \<open>The literal \<open>'(new)'\<close> of the source, 0x28 0x65B0 0x589E 0x29.\<close>

definition newLabel :: jsstring where
  "newLabel = [0x28, 0x65B0, 0x589E, 0x29]"

text \<open>The literals \<open>'1 point'\<close> (0x31 0x5206) and \<open>'0 points'\<close> (0x30 0x5206).\<close>

definition onePoint :: jsstring where
  "onePoint = [0x31, 0x5206]"

definition zeroPoints :: jsstring where
  "zeroPoints = [0x30, 0x5206]"

section \<open>Summary projection: \<open>createCard\<close>\<close>

text \<open>
  \<open>createCard\<close> fills an HTML template with the values it computes; the model returns
  those values, one field per hole of the template.
\<close>

record card =
  card_id :: jsstring
  card_faceClass :: jsstring
  card_badge :: jsstring
  card_title :: jsstring
  card_type :: jsstring
  card_scoreClass :: jsstring
  card_score :: jsstring
  card_hasAI :: bool

definition hasAI :: "indicator \<Rightarrow> bool" where
  "hasAI item =
     (case ai_suggestion item of
        None \<Rightarrow> False
      | Some ai \<Rightarrow> \<not> truthy (ai_error ai) \<and> \<not> truthy (ai_parse_error ai))"

text \<open>The pair \<open>(scoreClass, scoreDisplay)\<close> after the \<open>if\<close> chain on the score.\<close>

definition scoreBadge :: "indicator \<Rightarrow> jsstring \<times> jsstring" where
  "scoreBadge item =
     (let scoreVal = scoreNumeric item; scoreTxt = orElse (scoreText item) []
      in if scoreVal = JNum 1 then (ascii ''pass'', onePoint)
         else if scoreVal = JNum 0 then (ascii ''fail'', zeroPoints)
         else if scoreTxt \<noteq> [] then (ascii ''pass'', take 6 scoreTxt)
         else (ascii ''na'', ascii ''--''))"

definition createCard :: "indicator \<Rightarrow> card" where
  "createCard item =
     (let face' = orElse (face item) [];
          faceClass = (if face' = ascii ''E'' then ascii ''env''
                       else if face' = ascii ''S'' then ascii ''soc'' else ascii ''gov'');
          isNew = (statusTag item = Some New_2026);
          (scoreClass, scoreDisplay) = scoreBadge item
      in \<lparr> card_id = orElse (ident item) [],
           card_faceClass = faceClass,
           card_badge = (if isNew then ascii ''NEW'' else ascii ''MOD''),
           card_title = take 100 (newlineToSpace (orElse (title item) [])),
           card_type = orElse (questionType item) [],
           card_scoreClass = scoreClass,
           card_score = (if isNew then newLabel else scoreDisplay),
           card_hasAI = hasAI item \<rparr>)"

section \<open>Stats bar: \<open>renderStats\<close>\<close>

record stats =
  st_total :: nat
  st_newCount :: nat
  st_modCount :: nat
  st_aiCount :: nat

definition countsAsAI :: "indicator \<Rightarrow> bool" where
  "countsAsAI d =
     (case ai_suggestion d of None \<Rightarrow> False | Some ai \<Rightarrow> \<not> truthy (ai_error ai))"

definition renderStats :: "indicator list \<Rightarrow> stats" where
  "renderStats filteredData =
     \<lparr> st_total = length filteredData,
       st_newCount = length (filter (\<lambda>d. statusTag d = Some New_2026) filteredData),
       st_modCount = length (filter (\<lambda>d. statusTag d = Some Modified_2026) filteredData),
       st_aiCount = length (filter countsAsAI filteredData) \<rparr>"

section \<open>Dataset loader: \<open>loadData\<close>\<close>

text \<open>
  The loader tests the identifier against the regular expression \<open>/^[ESG]-\d+$/\<close>.
  Regular expressions are modelled by their syntax and matched by derivatives; the
  anchors \<open>^\<close> and \<open>$\<close> (no multiline flag) make \<open>test\<close> a match of the whole string.
\<close>

datatype regex =
    Never
  | Empty
  | OneOf "jschar list"
  | Between jschar jschar
  | Then regex regex
  | Or regex regex
  | Star regex

fun nullable :: "regex \<Rightarrow> bool" where
  "nullable Never = False"
| "nullable Empty = True"
| "nullable (OneOf cs) = False"
| "nullable (Between lo hi) = False"
| "nullable (Then r s) = (nullable r \<and> nullable s)"
| "nullable (Or r s) = (nullable r \<or> nullable s)"
| "nullable (Star r) = True"

fun deriv :: "jschar \<Rightarrow> regex \<Rightarrow> regex" where
  "deriv c Never = Never"
| "deriv c Empty = Never"
| "deriv c (OneOf cs) = (if c \<in> set cs then Empty else Never)"
| "deriv c (Between lo hi) = (if lo \<le> c \<and> c \<le> hi then Empty else Never)"
| "deriv c (Then r s) =
     (if nullable r then Or (Then (deriv c r) s) (deriv c s) else Then (deriv c r) s)"
| "deriv c (Or r s) = Or (deriv c r) (deriv c s)"
| "deriv c (Star r) = Then (deriv c r) (Star r)"

fun regexTest :: "regex \<Rightarrow> jsstring \<Rightarrow> bool" where
  "regexTest r [] = nullable r"
| "regexTest r (c # cs) = regexTest (deriv c r) cs"

text \<open>\<open>[ESG]-\d+\<close>: the class, the hyphen, then one or more decimal digits.\<close>

definition digit :: regex where
  "digit = Between 0x30 0x39"

definition indicatorPattern :: regex where
  "indicatorPattern =
     Then (OneOf [0x45, 0x53, 0x47]) (Then (OneOf [0x2D]) (Then digit (Star digit)))"

text \<open>
  \<open>allData.filter(d => d[id] && /^[ESG]-\d+$/.test(d[id]))\<close>, on the parsed payload.
\<close>

definition isIndicator :: "indicator \<Rightarrow> bool" where
  "isIndicator d =
     (case ident d of None \<Rightarrow> False | Some s \<Rightarrow> s \<noteq> [] \<and> regexTest indicatorPattern s)"

definition loadData :: "indicator list \<Rightarrow> indicator list" where
  "loadData payload = filter isIndicator payload"

text \<open>
  The words of a regular expression, for the proofs: the strings it denotes.
\<close>

inductive_set star :: "jsstring set \<Rightarrow> jsstring set" for A :: "jsstring set" where
  star_nil: "[] \<in> star A"
| star_app: "u \<in> A \<Longrightarrow> v \<in> star A \<Longrightarrow> u @ v \<in> star A"

fun lang :: "regex \<Rightarrow> jsstring set" where
  "lang Never = {}"
| "lang Empty = {[]}"
| "lang (OneOf cs) = {[c] | c. c \<in> set cs}"
| "lang (Between lo hi) = {[c] | c. lo \<le> c \<and> c \<le> hi}"
| "lang (Then r s) = {u @ v | u v. u \<in> lang r \<and> v \<in> lang s}"
| "lang (Or r s) = lang r \<union> lang s"
| "lang (Star r) = star (lang r)"

text \<open>
  The indicator code pattern in the specification's words: one letter of E, S, G, a
  hyphen, one or more decimal digits.
\<close>

definition isIndicatorCode :: "jsstring \<Rightarrow> bool" where
  "isIndicatorCode s =
     (\<exists>c ds. s = c # 0x2D # ds \<and> c \<in> {0x45, 0x53, 0x47} \<and> ds \<noteq> []
             \<and> (\<forall>d \<in> set ds. 0x30 \<le> d \<and> d \<le> 0x39))"

section \<open>Filter engine: \<open>applyFilters\<close>\<close>

text \<open>
  The criteria are the values of the three selects and of the search box, as the page
  holds them; an empty string is an unset criterion.
\<close>

record criteria =
  filterFace :: jsstring
  filterStatus :: jsstring
  filterDept :: jsstring
  searchInput :: jsstring

text \<open>\<open>xs.filter(Boolean)\<close> on an array of text fields.\<close>

fun filterBoolean :: "jstext list \<Rightarrow> jsstring list" where
  "filterBoolean [] = []"
| "filterBoolean (None # vs) = filterBoolean vs"
| "filterBoolean (Some s # vs) = (if s \<noteq> [] then s # filterBoolean vs else filterBoolean vs)"

definition haystack :: "(jsstring \<Rightarrow> jsstring) \<Rightarrow> indicator \<Rightarrow> jsstring" where
  "haystack lower d =
     lower (join [0x20]
       (filterBoolean [ident d, title d, description d, selfEvalNote d, department d]))"

definition keeps :: "(jsstring \<Rightarrow> jsstring) \<Rightarrow> criteria \<Rightarrow> indicator \<Rightarrow> bool" where
  "keeps lower c d =
     (let search = trim (lower (searchInput c))
      in if filterFace c \<noteq> [] \<and> face d \<noteq> Some (filterFace c) then False
         else if filterStatus c \<noteq> [] \<and> statusTag d \<noteq> Some (filterStatus c) then False
         else if filterDept c \<noteq> [] \<and> department d \<noteq> Some (filterDept c) then False
         else if search \<noteq> [] \<and> \<not> includesStr (haystack lower d) search then False
         else True)"

definition applyFilters ::
    "(jsstring \<Rightarrow> jsstring) \<Rightarrow> criteria \<Rightarrow> indicator list \<Rightarrow> indicator list" where
  "applyFilters lower c allData = filter (keeps lower c) allData"

section \<open>Board grouping and ordering: \<open>renderKanban\<close>\<close>

text \<open>The sentinel key of the records without department, 0x5F85 0x5206 0x914D.\<close>

definition unassigned :: jsstring where
  "unassigned = [0x5F85, 0x5206, 0x914D]"

definition groupKey :: "indicator \<Rightarrow> jsstring" where
  "groupKey d = orElse (department d) unassigned"

text \<open>
  The \<open>Map\<close> of groups keeps its keys in insertion order: an association list. One
  step of the \<open>forEach\<close>: create the group when the key is new, then push the record.
\<close>

type_synonym groups = "(jsstring \<times> indicator list) list"

fun pushTo :: "jsstring \<Rightarrow> indicator \<Rightarrow> groups \<Rightarrow> groups" where
  "pushTo k d [] = [(k, [d])]"
| "pushTo k d ((k', ds) # g) =
     (if k' = k then (k', ds @ [d]) # g else (k', ds) # pushTo k d g)"

definition groupByDept :: "indicator list \<Rightarrow> groups" where
  "groupByDept filteredData = foldl (\<lambda>g d. pushTo (groupKey d) d g) [] filteredData"

text \<open>
  \<open>Array.prototype.sort\<close> with a comparator is a stable sort: \<open>cmp a b < 0\<close> puts \<open>a\<close>
  first, \<open>cmp a b > 0\<close> puts \<open>b\<close> first, and \<open>0\<close> keeps the order of the input. Insertion
  from the right is such a sort. \<open>localeCompare\<close> with the locale \<open>zh-TW\<close> is the platform's
  collation; it is the parameter \<open>lc\<close>.
\<close>

fun insertBy :: "('a \<Rightarrow> 'a \<Rightarrow> int) \<Rightarrow> 'a \<Rightarrow> 'a list \<Rightarrow> 'a list" where
  "insertBy cmp x [] = [x]"
| "insertBy cmp x (y # ys) = (if cmp x y \<le> 0 then x # y # ys else y # insertBy cmp x ys)"

definition sortBy :: "('a \<Rightarrow> 'a \<Rightarrow> int) \<Rightarrow> 'a list \<Rightarrow> 'a list" where
  "sortBy cmp xs = foldr (insertBy cmp) xs []"

definition keyCompare :: "(jsstring \<Rightarrow> jsstring \<Rightarrow> int) \<Rightarrow> jsstring \<Rightarrow> jsstring \<Rightarrow> int" where
  "keyCompare lc a b = (if a = unassigned then 1 else if b = unassigned then - 1 else lc a b)"

definition sortedKeys :: "(jsstring \<Rightarrow> jsstring \<Rightarrow> int) \<Rightarrow> groups \<Rightarrow> jsstring list" where
  "sortedKeys lc g = sortBy (keyCompare lc) (map fst g)"

text \<open>
  The columns of the board, in order: the title and what \<open>groups.get\<close> returns for it
  (\<open>None\<close> would be \<open>undefined\<close>).
\<close>

definition renderKanban ::
    "(jsstring \<Rightarrow> jsstring \<Rightarrow> int) \<Rightarrow> indicator list \<Rightarrow> (jsstring \<times> indicator list option) list" where
  "renderKanban lc filteredData =
     (let g = groupByDept filteredData in map (\<lambda>dept. (dept, map_of g dept)) (sortedKeys lc g))"

definition columnCount :: "jsstring \<times> indicator list option \<Rightarrow> nat" where
  "columnCount col = (case snd col of None \<Rightarrow> 0 | Some items \<Rightarrow> length items)"

text \<open>A comparison of strings by code units, used where a concrete collation is needed.\<close>

fun codeUnitCompare :: "jsstring \<Rightarrow> jsstring \<Rightarrow> int" where
  "codeUnitCompare [] [] = 0"
| "codeUnitCompare [] (y # ys) = - 1"
| "codeUnitCompare (x # xs) [] = 1"
| "codeUnitCompare (x # xs) (y # ys) =
     (if x < y then - 1 else if y < x then 1 else codeUnitCompare xs ys)"

section \<open>Face labels of the table row and of the detail overlay\<close>

text \<open>
  The short labels of \<open>renderTable\<close>: environment 0x74B0 0x5883, social 0x793E 0x6703,
  governance 0x6CBB 0x7406.
\<close>

definition envShort :: jsstring where
  "envShort = [0x74B0, 0x5883]"

definition socShort :: jsstring where
  "socShort = [0x793E, 0x6703]"

definition govShort :: jsstring where
  "govShort = [0x6CBB, 0x7406]"

definition tableFaceLabel :: "indicator \<Rightarrow> jsstring" where
  "tableFaceLabel item =
     (let face' = orElse (face item) []
      in if face' = ascii ''E'' then envShort
         else if face' = ascii ''S'' then socShort
         else if face' = ascii ''G'' then govShort
         else face')"

text \<open>The long labels of \<open>openModal\<close>, each the short label, 0x9762 and \<open>' (E)'\<close> etc.\<close>

definition envLong :: jsstring where
  "envLong = [0x74B0, 0x5883, 0x9762] @ ascii '' (E)''"

definition socLong :: jsstring where
  "socLong = [0x793E, 0x6703, 0x9762] @ ascii '' (S)''"

definition govLong :: jsstring where
  "govLong = [0x516C, 0x53F8, 0x6CBB, 0x7406, 0x9762] @ ascii '' (G)''"

definition modalFaceLabel :: "indicator \<Rightarrow> jsstring" where
  "modalFaceLabel item =
     (if face item = Some (ascii ''E'') then envLong
      else if face item = Some (ascii ''S'') then socLong
      else govLong)"

section \<open>Detail projection: the AI section of \<open>openModal\<close>\<close>

text \<open>
  The section that \<open>openModal\<close> appends for the AI suggestion is one of three templates:
  five labelled sub-items, a preformatted dump, or a placeholder. Each constructor
  carries the strings put into the holes of its template.
\<close>

datatype aiSection =
    Structured jsstring jsstring jsstring jsstring jsstring
  | RawDump jsstring
  | Placeholder jsstring

definition notAvailable :: jsstring where
  "notAvailable = ascii ''N/A''"

text \<open>
  The placeholder text: 0x5C1A 0x672A 0x751F 0x6210 \<open>' AI '\<close> 0x5EFA 0x8B70 0x3002
  0x8ACB 0x57F7 0x884C \<open>' generate_suggestions.py '\<close> 0x5F8C 0x91CD 0x65B0 0x8F09 0x5165
  0x3002 (suggestions not generated yet; run the generator and reload).
\<close>

definition notGenerated :: jsstring where
  "notGenerated =
     [0x5C1A, 0x672A, 0x751F, 0x6210] @ ascii '' AI '' @ [0x5EFA, 0x8B70, 0x3002,
      0x8ACB, 0x57F7, 0x884C] @ ascii '' generate_suggestions.py '' @
     [0x5F8C, 0x91CD, 0x65B0, 0x8F09, 0x5165, 0x3002]"

definition renderActions :: "actions \<Rightarrow> jsstring" where
  "renderActions a =
     (case a of
        ActionItems items \<Rightarrow>
          ascii ''<ul>'' @ concat (map (\<lambda>a. ascii ''<li>'' @ a @ ascii ''</li>'') items)
          @ ascii ''</ul>''
      | ActionText t \<Rightarrow> orElse t notAvailable)"

text \<open>
  \<open>JSON.stringify(ai, null, 2)\<close> is the platform's serializer: the parameter
  \<open>stringify\<close>.
\<close>

definition aiSectionOf :: "(aiSuggestion \<Rightarrow> jsstring) \<Rightarrow> indicator \<Rightarrow> aiSection" where
  "aiSectionOf stringify item =
     (case ai_suggestion item of
        None \<Rightarrow> Placeholder notGenerated
      | Some ai \<Rightarrow>
          if \<not> truthy (ai_error ai) \<and> \<not> truthy (ai_parse_error ai) then
            Structured
              (orElse (ai_corePlain ai) (orElse (ai_core ai) notAvailable))
              (orElse (ai_gapOrDiagnosis ai) (orElse (ai_gap ai) notAvailable))
              (renderActions (ai_actions ai))
              (orElse (ai_references ai) notAvailable)
              (orElse (ai_assignment ai) notAvailable)
          else if present (ai_raw_response ai) \<or> truthy (ai_parse_error ai) then
            RawDump (orElse (ai_raw_response ai) (stringify ai))
          else Placeholder notGenerated)"

section \<open>Export: \<open>exportCSV\<close>\<close>

text \<open>
  The eight exported columns: the key, as it stands in the header row, and the field
  that \<open>d[h]\<close> reads. All eight are text fields, on which \<open>String\<close> is the identity.
\<close>

definition headers :: "(jsstring \<times> (indicator \<Rightarrow> jstext)) list" where
  "headers =
     [([0x7DE8, 0x865F], ident),
      ([0x72C0, 0x614B, 0x6A19, 0x8A18], statusTag),
      ([0x69CB, 0x9762], face),
      ([0x8A55, 0x9451, 0x6307, 0x6A19], title),
      ([0x984C, 0x578B], questionType),
      (ascii ''114_'' @ [0x81EA, 0x8A55, 0x5F97, 0x5206], scoreText),
      (ascii ''114_'' @ [0x76F8, 0x95DC, 0x8CA0, 0x8CAC, 0x90E8, 0x9580], department),
      (ascii ''114_'' @ [0x81EA, 0x8A55, 0x4F86, 0x6E90, 0x53CA, 0x8AAA, 0x660E], selfEvalNote)]"

definition csvCell :: "jstext \<Rightarrow> jsstring" where
  "csvCell v = (let val = orElse v [] in [0x22] @ newlineToSpace (doubleQuotes val) @ [0x22])"

definition csvRow :: "indicator \<Rightarrow> jsstring" where
  "csvRow d = join [0x2C] (map (\<lambda>(h, field). csvCell (field d)) headers)"

definition csvHeader :: jsstring where
  "csvHeader = join [0x2C] (map fst headers)"

definition exportCSV :: "indicator list \<Rightarrow> jsstring" where
  "exportCSV filteredData =
     foldl (\<lambda>csv d. csv @ csvRow d @ [0x0A]) ([0xFEFF] @ csvHeader @ [0x0A]) filteredData"

section \<open>Sample records\<close>

definition noAI :: aiSuggestion where
  "noAI = \<lparr> ai_error = JUndefined, ai_parse_error = JUndefined, ai_raw_response = None,
            ai_corePlain = None, ai_core = None, ai_gapOrDiagnosis = None, ai_gap = None,
            ai_actions = ActionText None, ai_references = None, ai_assignment = None \<rparr>"

definition blank :: indicator where
  "blank = \<lparr> ident = Some (ascii ''E-1''), statusTag = None, face = None, title = None,
             description = None, questionType = None, scoreText = None,
             scoreNumeric = JUndefined, department = None, selfEvalNote = None,
             ai_suggestion = None \<rparr>"

definition samplePayload :: "indicator list" where
  "samplePayload =
     [blank, blank\<lparr>ident := None\<rparr>, blank\<lparr>ident := Some []\<rparr>,
      blank\<lparr>ident := Some (ascii ''X-1'')\<rparr>, blank\<lparr>ident := Some (ascii ''E-'')\<rparr>,
      blank\<lparr>ident := Some (ascii ''G-12'')\<rparr>, blank\<lparr>ident := Some (ascii ''e-1'')\<rparr>,
      blank\<lparr>ident := Some (ascii ''S-7a'')\<rparr>, blank\<lparr>ident := Some (ascii ''E1'')\<rparr>]"

definition waterRecord :: indicator where
  "waterRecord = blank\<lparr>face := Some (ascii ''E''), title := Some (ascii ''Water Use''),
                         department := Some (ascii ''Finance'')\<rparr>"

definition boardRecord :: indicator where
  "boardRecord = blank\<lparr>ident := Some (ascii ''G-2''), face := Some (ascii ''G''),
                         title := Some (ascii ''Board water policy'')\<rparr>"

definition paddedSearch :: criteria where
  "paddedSearch = \<lparr> filterFace = [], filterStatus = [], filterDept = [],
                     searchInput = ascii '' e-1'' \<rparr>"

definition waterSearch :: criteria where
  "waterSearch = \<lparr> filterFace = ascii ''E'', filterStatus = [], filterDept = [],
                    searchInput = ascii ''  WATER '' \<rparr>"

definition quotedTitle :: indicator where
  "quotedTitle = blank\<lparr>title := Some [0x61, 0x22, 0x62, 0x0A, 0x63]\<rparr>"

definition financeRecord :: indicator where
  "financeRecord = blank\<lparr>department := Some (ascii ''Finance'')\<rparr>"

definition auditRecord :: indicator where
  "auditRecord = blank\<lparr>ident := Some (ascii ''G-3''), department := Some (ascii ''Audit'')\<rparr>"

definition emptyDeptRecord :: indicator where
  "emptyDeptRecord = blank\<lparr>ident := Some (ascii ''S-4''), department := Some []\<rparr>"

definition boardSample :: "indicator list" where
  "boardSample = [financeRecord, blank, auditRecord, emptyDeptRecord, financeRecord]"

section \<open>Properties\<close>

text \<open>
  C7. The AI-availability flag of the summary card is true exactly when the record has
  an AI suggestion that carries neither a (truthy) error marker nor a (truthy)
  parse-error marker; in particular it is false for a record without AI suggestion.
\<close>

theorem C7_card_hasAI:
  "(card_hasAI (createCard item) \<longleftrightarrow>
     (\<exists>ai. ai_suggestion item = Some ai \<and> \<not> truthy (ai_error ai)
           \<and> \<not> truthy (ai_parse_error ai)))
   \<and> (ai_suggestion item = None \<longrightarrow> \<not> card_hasAI (createCard item))"
  by (auto simp: createCard_def hasAI_def Let_def split: option.splits prod.splits)

theorem C7_card_hasAI_witness:
  "card_hasAI (createCard (blank\<lparr>ai_suggestion := Some noAI\<rparr>))
   \<and> \<not> card_hasAI (createCard blank)
   \<and> \<not> card_hasAI (createCard (blank\<lparr>ai_suggestion := Some (noAI\<lparr>ai_parse_error := JBool True\<rparr>)\<rparr>))
   \<and> \<not> card_hasAI (createCard (blank\<lparr>ai_suggestion := Some (noAI\<lparr>ai_error := JStr (ascii ''quota'')\<rparr>)\<rparr>))"
  using C7_card_hasAI [of "blank\<lparr>ai_suggestion := Some noAI\<rparr>"]
        C7_card_hasAI [of blank]
        C7_card_hasAI [of "blank\<lparr>ai_suggestion := Some (noAI\<lparr>ai_parse_error := JBool True\<rparr>)\<rparr>"]
        C7_card_hasAI [of "blank\<lparr>ai_suggestion := Some (noAI\<lparr>ai_error := JStr (ascii ''quota'')\<rparr>)\<rparr>"]
  by (simp_all add: blank_def noAI_def ascii_def)

subsection \<open>Score badge of the summary card\<close>

lemma scoreBadge_cases:
  "scoreBadge item =
     (if scoreNumeric item = JNum 1 then (ascii ''pass'', onePoint)
      else if scoreNumeric item = JNum 0 then (ascii ''fail'', zeroPoints)
      else if present (scoreText item) then (ascii ''pass'', take 6 (orElse (scoreText item) []))
      else (ascii ''na'', ascii ''--''))"
  by (simp add: scoreBadge_def Let_def present_def orElse_def split: option.splits)

text \<open>
  C2. The score badge of the card follows the priority order: a record whose status tag
  is New reads the "(new)" label whatever its score; otherwise a numeric score of exactly
  1 reads "1 point", styled pass; otherwise a numeric score of exactly 0 reads "0 points",
  styled fail; otherwise a present (non-empty) score text is shown cut to its first six
  code units, styled pass; otherwise the neutral placeholder \<open>--\<close>, styled \<open>na\<close>.
\<close>

theorem C2_score_badge:
  "card_score (createCard item) =
     (if statusTag item = Some New_2026 then newLabel
      else if scoreNumeric item = JNum 1 then onePoint
      else if scoreNumeric item = JNum 0 then zeroPoints
      else if present (scoreText item) then take 6 (orElse (scoreText item) [])
      else ascii ''--'')
   \<and> card_scoreClass (createCard item) =
     (if scoreNumeric item = JNum 1 then ascii ''pass''
      else if scoreNumeric item = JNum 0 then ascii ''fail''
      else if present (scoreText item) then ascii ''pass''
      else ascii ''na'')"
  by (simp add: createCard_def Let_def scoreBadge_cases)

theorem C2_score_badge_witness:
  "card_score (createCard (blank\<lparr>statusTag := Some New_2026, scoreNumeric := JNum 0\<rparr>)) = newLabel
   \<and> newLabel \<noteq> zeroPoints
   \<and> card_score (createCard (blank\<lparr>scoreNumeric := JNum 1\<rparr>)) = onePoint
   \<and> card_scoreClass (createCard (blank\<lparr>scoreNumeric := JNum 1\<rparr>)) = ascii ''pass''
   \<and> card_score (createCard (blank\<lparr>scoreNumeric := JNum 0\<rparr>)) = zeroPoints
   \<and> card_scoreClass (createCard (blank\<lparr>scoreNumeric := JNum 0\<rparr>)) = ascii ''fail''
   \<and> card_score (createCard (blank\<lparr>scoreText := Some (ascii ''partially met'')\<rparr>)) = ascii ''partia''
   \<and> card_score (createCard blank) = ascii ''--''"
  using C2_score_badge [of "blank\<lparr>statusTag := Some New_2026, scoreNumeric := JNum 0\<rparr>"]
        C2_score_badge [of "blank\<lparr>scoreNumeric := JNum 1\<rparr>"]
        C2_score_badge [of "blank\<lparr>scoreNumeric := JNum 0\<rparr>"]
        C2_score_badge [of "blank\<lparr>scoreText := Some (ascii ''partially met'')\<rparr>"]
        C2_score_badge [of blank]
  by (simp add: blank_def New_2026_def newLabel_def zeroPoints_def present_def orElse_def ascii_def)

subsection \<open>AI indicator and AI count\<close>

text \<open>
  C10. The AI count of the stats bar counts the records whose AI suggestion is present
  and has no error marker, whatever the parse-error marker; a record whose suggestion
  carries a parse-error marker and no error marker is counted while its card shows no AI
  indicator.
\<close>

theorem C10_stats_vs_card:
  "st_aiCount (renderStats filteredData) =
     length (filter (\<lambda>d. \<exists>ai. ai_suggestion d = Some ai \<and> \<not> truthy (ai_error ai)) filteredData)
   \<and> (\<forall>d ai. ai_suggestion d = Some ai \<and> \<not> truthy (ai_error ai) \<and> truthy (ai_parse_error ai)
         \<longrightarrow> st_aiCount (renderStats [d]) = 1 \<and> \<not> card_hasAI (createCard d))"
proof -
  have "countsAsAI = (\<lambda>d. \<exists>ai. ai_suggestion d = Some ai \<and> \<not> truthy (ai_error ai))"
    by (auto simp: countsAsAI_def fun_eq_iff split: option.splits)
  then have "st_aiCount (renderStats filteredData) =
     length (filter (\<lambda>d. \<exists>ai. ai_suggestion d = Some ai \<and> \<not> truthy (ai_error ai)) filteredData)"
    by (simp add: renderStats_def)
  moreover have "st_aiCount (renderStats [d]) = 1 \<and> \<not> card_hasAI (createCard d)"
    if "ai_suggestion d = Some ai \<and> \<not> truthy (ai_error ai) \<and> truthy (ai_parse_error ai)" for d ai
    using that by (simp add: renderStats_def countsAsAI_def createCard_def hasAI_def Let_def split: prod.splits)
  ultimately show ?thesis by blast
qed

theorem C10_stats_vs_card_witness:
  "st_aiCount (renderStats [blank\<lparr>ai_suggestion := Some (noAI\<lparr>ai_parse_error := JBool True\<rparr>)\<rparr>]) = 1
   \<and> \<not> card_hasAI (createCard (blank\<lparr>ai_suggestion := Some (noAI\<lparr>ai_parse_error := JBool True\<rparr>)\<rparr>))"
proof -
  let ?d = "blank\<lparr>ai_suggestion := Some (noAI\<lparr>ai_parse_error := JBool True\<rparr>)\<rparr>"
  let ?ai = "noAI\<lparr>ai_parse_error := JBool True\<rparr>"
  have h: "ai_suggestion ?d = Some ?ai \<and> \<not> truthy (ai_error ?ai) \<and> truthy (ai_parse_error ?ai)"
    by (simp add: noAI_def)
  from C10_stats_vs_card [of "[]"] have
    "\<forall>d ai. ai_suggestion d = Some ai \<and> \<not> truthy (ai_error ai) \<and> truthy (ai_parse_error ai)
         \<longrightarrow> st_aiCount (renderStats [d]) = 1 \<and> \<not> card_hasAI (createCard d)" by (rule conjunct2)
  with h show ?thesis by blast
qed

subsection \<open>Face fallback\<close>

text \<open>
  The table row does not fall back to the governance label: a record without face gets
  the empty label, an unrecognized face is shown as it is.
\<close>

theorem C5_table_label_counterexample:
  "face blank = None \<and> tableFaceLabel blank = [] \<and> tableFaceLabel blank \<noteq> govShort
   \<and> tableFaceLabel (blank\<lparr>face := Some (ascii ''X'')\<rparr>) = ascii ''X''
   \<and> tableFaceLabel (blank\<lparr>face := Some (ascii ''X'')\<rparr>) \<noteq> govShort"
  by (simp add: blank_def tableFaceLabel_def orElse_def govShort_def ascii_def)

text \<open>
  C5 (amended). When the face is not E or S, the card's style class and the overlay's
  long label are the governance ones; the table row shows the governance label only for
  the face G and otherwise the face value itself, empty when the face is absent.
\<close>

theorem C5_face_fallback:
  "face item \<noteq> Some (ascii ''E'') \<and> face item \<noteq> Some (ascii ''S'') \<longrightarrow>
     card_faceClass (createCard item) = ascii ''gov''
     \<and> modalFaceLabel item = govLong
     \<and> tableFaceLabel item =
         (if face item = Some (ascii ''G'') then govShort else orElse (face item) [])"
  by (auto simp: createCard_def Let_def modalFaceLabel_def tableFaceLabel_def orElse_def ascii_def
      split: option.splits prod.splits)

theorem C5_face_fallback_witness:
  "card_faceClass (createCard blank) = ascii ''gov''
   \<and> modalFaceLabel blank = govLong
   \<and> tableFaceLabel blank = []
   \<and> tableFaceLabel (blank\<lparr>face := Some (ascii ''G'')\<rparr>) = govShort"
  using C5_face_fallback [of blank] C5_face_fallback [of "blank\<lparr>face := Some (ascii ''G'')\<rparr>"]
  by (simp add: blank_def orElse_def ascii_def)

subsection \<open>AI section of the detail overlay\<close>

text \<open>
  A suggestion with a raw response and neither an error nor a parse-error marker is
  rendered through the structured template, not as a raw dump.
\<close>

theorem C3_raw_without_marker_counterexample:
  "present (ai_raw_response (noAI\<lparr>ai_raw_response := Some (ascii ''xyz'')\<rparr>))
   \<and> aiSectionOf (\<lambda>ai. []) (blank\<lparr>ai_suggestion := Some (noAI\<lparr>ai_raw_response := Some (ascii ''xyz'')\<rparr>)\<rparr>)
       = Structured notAvailable notAvailable notAvailable notAvailable notAvailable
   \<and> aiSectionOf (\<lambda>ai. []) (blank\<lparr>ai_suggestion := Some (noAI\<lparr>ai_raw_response := Some (ascii ''xyz'')\<rparr>)\<rparr>)
       \<noteq> RawDump (ascii ''xyz'')"
  by (simp add: present_def aiSectionOf_def blank_def noAI_def orElse_def renderActions_def ascii_def)

text \<open>
  C3 (amended). The AI section is always one of the three templates. Without AI
  suggestion it is the placeholder. With one: when neither an error nor a parse-error
  marker is set, the five structured sub-items with their "N/A" defaults; when an error
  or parse-error marker is set and a raw response or the parse-error marker is present,
  the raw response verbatim, or the serialization of the structure when there is no raw
  response; when only the error marker is set and there is no raw response, the
  placeholder.
\<close>

theorem C3_ai_section:
  "((\<exists>a b c d e. aiSectionOf stringify item = Structured a b c d e)
    \<or> (\<exists>raw. aiSectionOf stringify item = RawDump raw)
    \<or> aiSectionOf stringify item = Placeholder notGenerated)
   \<and> (ai_suggestion item = None \<longrightarrow> aiSectionOf stringify item = Placeholder notGenerated)
   \<and> (\<forall>ai. ai_suggestion item = Some ai \<longrightarrow>
        (\<not> truthy (ai_error ai) \<and> \<not> truthy (ai_parse_error ai) \<longrightarrow>
           aiSectionOf stringify item =
             Structured (orElse (ai_corePlain ai) (orElse (ai_core ai) notAvailable))
                        (orElse (ai_gapOrDiagnosis ai) (orElse (ai_gap ai) notAvailable))
                        (renderActions (ai_actions ai))
                        (orElse (ai_references ai) notAvailable)
                        (orElse (ai_assignment ai) notAvailable))
      \<and> ((truthy (ai_error ai) \<or> truthy (ai_parse_error ai))
           \<and> (present (ai_raw_response ai) \<or> truthy (ai_parse_error ai)) \<longrightarrow>
           aiSectionOf stringify item =
             RawDump (case ai_raw_response ai of
                        Some raw \<Rightarrow> if raw \<noteq> [] then raw else stringify ai
                      | None \<Rightarrow> stringify ai))
      \<and> (truthy (ai_error ai) \<and> \<not> truthy (ai_parse_error ai) \<and> \<not> present (ai_raw_response ai) \<longrightarrow>
           aiSectionOf stringify item = Placeholder notGenerated))"
  by (auto simp: aiSectionOf_def orElse_def present_def split: option.splits)

theorem C3_ai_section_witness:
  "aiSectionOf (\<lambda>ai. [])
     (blank\<lparr>ai_suggestion := Some (noAI\<lparr>ai_parse_error := JBool True,
                                          ai_raw_response := Some (ascii ''xyz'')\<rparr>)\<rparr>)
     = RawDump (ascii ''xyz'')
   \<and> aiSectionOf (\<lambda>ai. ascii ''{}'')
       (blank\<lparr>ai_suggestion := Some (noAI\<lparr>ai_parse_error := JBool True\<rparr>)\<rparr>)
     = RawDump (ascii ''{}'')
   \<and> aiSectionOf (\<lambda>ai. []) (blank\<lparr>ai_suggestion := Some noAI\<rparr>)
     = Structured notAvailable notAvailable notAvailable notAvailable notAvailable
   \<and> aiSectionOf (\<lambda>ai. []) blank = Placeholder notGenerated"
  using C3_ai_section [of "\<lambda>ai. []" "blank\<lparr>ai_suggestion := Some (noAI\<lparr>ai_parse_error := JBool True,
                                          ai_raw_response := Some (ascii ''xyz'')\<rparr>)\<rparr>"]
        C3_ai_section [of "\<lambda>ai. ascii ''{}''" "blank\<lparr>ai_suggestion := Some (noAI\<lparr>ai_parse_error := JBool True\<rparr>)\<rparr>"]
        C3_ai_section [of "\<lambda>ai. []" "blank\<lparr>ai_suggestion := Some noAI\<rparr>"]
        C3_ai_section [of "\<lambda>ai. []" blank]
  by (simp add: blank_def noAI_def present_def orElse_def renderActions_def ascii_def)

subsection \<open>Dataset loader\<close>

text \<open>
  Matching by derivatives decides membership in the language of the expression.
\<close>

lemma nullable_iff: "nullable r \<longleftrightarrow> [] \<in> lang r"
  by (induction r) (auto intro: star.star_nil)

lemma star_cons:
  assumes "x \<in> star A" and "x = c # w"
  shows "\<exists>u v. w = u @ v \<and> c # u \<in> A \<and> v \<in> star A"
  using assms
proof (induction arbitrary: w rule: star.induct)
  case star_nil
  then show ?case by simp
next
  case (star_app u v)
  show ?case
  proof (cases u)
    case Nil
    with star_app show ?thesis by simp
  next
    case (Cons a u')
    with star_app.prems have "a = c" and "w = u' @ v" by simp_all
    with Cons star_app.hyps show ?thesis by blast
  qed
qed

lemma cons_in_concat:
  "c # w \<in> {u @ v | u v. u \<in> A \<and> v \<in> B} \<longleftrightarrow>
     ([] \<in> A \<and> c # w \<in> B) \<or> (\<exists>u v. w = u @ v \<and> c # u \<in> A \<and> v \<in> B)"
proof
  assume "c # w \<in> {u @ v | u v. u \<in> A \<and> v \<in> B}"
  then obtain u v where uv: "c # w = u @ v" "u \<in> A" "v \<in> B" by blast
  show "([] \<in> A \<and> c # w \<in> B) \<or> (\<exists>u v. w = u @ v \<and> c # u \<in> A \<and> v \<in> B)"
  proof (cases u)
    case Nil
    with uv show ?thesis by simp
  next
    case (Cons a u')
    with uv have "a = c" and "w = u' @ v" by simp_all
    with Cons uv show ?thesis by blast
  qed
next
  assume "([] \<in> A \<and> c # w \<in> B) \<or> (\<exists>u v. w = u @ v \<and> c # u \<in> A \<and> v \<in> B)"
  then show "c # w \<in> {u @ v | u v. u \<in> A \<and> v \<in> B}"
  proof
    assume "[] \<in> A \<and> c # w \<in> B"
    then have "c # w = [] @ (c # w) \<and> [] \<in> A \<and> c # w \<in> B" by simp
    then show ?thesis by blast
  next
    assume "\<exists>u v. w = u @ v \<and> c # u \<in> A \<and> v \<in> B"
    then obtain u v where "w = u @ v" "c # u \<in> A" "v \<in> B" by blast
    then have "c # w = (c # u) @ v \<and> c # u \<in> A \<and> v \<in> B" by simp
    then show ?thesis by blast
  qed
qed

lemma lang_deriv: "lang (deriv c r) = {w. c # w \<in> lang r}"
proof (induction r)
  case Never
  show ?case by simp
next
  case Empty
  show ?case by simp
next
  case (OneOf cs)
  show ?case by auto
next
  case (Between lo hi)
  show ?case by auto
next
  case (Then r s)
  have "w \<in> lang (deriv c (Then r s)) \<longleftrightarrow> c # w \<in> lang (Then r s)" for w
  proof -
    have "w \<in> lang (deriv c (Then r s)) \<longleftrightarrow>
        (\<exists>u v. w = u @ v \<and> c # u \<in> lang r \<and> v \<in> lang s) \<or> ([] \<in> lang r \<and> c # w \<in> lang s)"
      using Then by (auto simp: nullable_iff)
    also have "\<dots> \<longleftrightarrow> c # w \<in> {u @ v | u v. u \<in> lang r \<and> v \<in> lang s}"
      unfolding cons_in_concat by blast
    finally show ?thesis by simp
  qed
  then show ?case by blast
next
  case (Or r s)
  then show ?case by auto
next
  case (Star r)
  show ?case
  proof (rule set_eqI, rule iffI)
    fix w assume "w \<in> lang (deriv c (Star r))"
    then obtain u v where "w = u @ v" "c # u \<in> lang r" "v \<in> star (lang r)"
      using Star by auto
    then have "(c # u) @ v \<in> star (lang r)" by (blast intro: star.star_app)
    with \<open>w = u @ v\<close> show "w \<in> {w. c # w \<in> lang (Star r)}" by simp
  next
    fix w assume "w \<in> {w. c # w \<in> lang (Star r)}"
    then have "c # w \<in> star (lang r)" by simp
    from star_cons [OF this refl] obtain u v
      where "w = u @ v" "c # u \<in> lang r" "v \<in> star (lang r)" by blast
    then show "w \<in> lang (deriv c (Star r))" using Star by auto
  qed
qed

lemma regexTest_iff: "regexTest r s \<longleftrightarrow> s \<in> lang r"
  by (induction s arbitrary: r) (simp_all add: nullable_iff lang_deriv)

lemma star_digits:
  "star {[c] | c. lo \<le> c \<and> c \<le> hi} = {ds. \<forall>d \<in> set ds. lo \<le> d \<and> d \<le> hi}"
proof (rule set_eqI, rule iffI)
  fix ds :: jsstring
  assume "ds \<in> star {[c] | c. lo \<le> c \<and> c \<le> hi}"
  then show "ds \<in> {ds. \<forall>d \<in> set ds. lo \<le> d \<and> d \<le> hi}"
    by (induction rule: star.induct) auto
next
  fix ds :: jsstring
  assume "ds \<in> {ds. \<forall>d \<in> set ds. lo \<le> d \<and> d \<le> hi}"
  then show "ds \<in> star {[c] | c. lo \<le> c \<and> c \<le> hi}"
  proof (induction ds)
    case Nil
    show ?case by (rule star.star_nil)
  next
    case (Cons d ds)
    then have "[d] \<in> {[c] | c. lo \<le> c \<and> c \<le> hi}" and "ds \<in> star {[c] | c. lo \<le> c \<and> c \<le> hi}"
      by auto
    then have "[d] @ ds \<in> star {[c] | c. lo \<le> c \<and> c \<le> hi}" by (rule star.star_app)
    then show ?case by simp
  qed
qed

lemma lang_indicatorPattern: "s \<in> lang indicatorPattern \<longleftrightarrow> isIndicatorCode s"
proof
  assume "s \<in> lang indicatorPattern"
  then obtain c d ds where "s = [c] @ [0x2D] @ [d] @ ds" "c \<in> set [0x45, 0x53, 0x47]"
      "0x30 \<le> d \<and> d \<le> 0x39" "ds \<in> star {[c] | c. 0x30 \<le> c \<and> c \<le> 0x39}"
    unfolding indicatorPattern_def digit_def by auto
  then show "isIndicatorCode s"
    unfolding isIndicatorCode_def star_digits
    by (intro exI [of _ c] exI [of _ "d # ds"]) auto
next
  assume "isIndicatorCode s"
  then obtain c ds where s: "s = c # 0x2D # ds" "c \<in> {0x45, 0x53, 0x47}" "ds \<noteq> []"
      "\<forall>d \<in> set ds. 0x30 \<le> d \<and> d \<le> 0x39"
    unfolding isIndicatorCode_def by blast
  then obtain d ds' where ds: "ds = d # ds'" by (cases ds) auto
  with s have "ds' \<in> star {[c] | c. 0x30 \<le> c \<and> c \<le> 0x39}" "0x30 \<le> d \<and> d \<le> 0x39"
    unfolding star_digits by auto
  then have "[d] @ ds' \<in> lang (Then digit (Star digit))"
    unfolding digit_def lang.simps by blast
  then have "[0x2D] @ [d] @ ds' \<in> lang (Then (OneOf [0x2D]) (Then digit (Star digit)))"
    unfolding lang.simps(5) [of "OneOf [0x2D]"] by (auto simp del: lang.simps(5))
  moreover have "[c] \<in> lang (OneOf [0x45, 0x53, 0x47])" using s(2) by auto
  ultimately have "[c] @ [0x2D] @ [d] @ ds' \<in> lang indicatorPattern"
    unfolding indicatorPattern_def lang.simps(5) [of "OneOf [0x45, 0x53, 0x47]"] by blast
  with s ds show "s \<in> lang indicatorPattern" by simp
qed

lemma isIndicator_iff: "isIndicator d \<longleftrightarrow> (\<exists>s. ident d = Some s \<and> isIndicatorCode s)"
proof -
  have "isIndicatorCode s \<Longrightarrow> s \<noteq> []" for s by (auto simp: isIndicatorCode_def)
  then show ?thesis
    by (auto simp: isIndicator_def regexTest_iff lang_indicatorPattern split: option.splits)
qed

text \<open>
  C8. The record set after loading holds exactly the entries of the payload, in their
  order, whose identifier is present and is an indicator code: one letter of E, S, G, a
  hyphen, one or more decimal digits. Every other entry is dropped.
\<close>

theorem C8_loader_keeps_indicators:
  "loadData payload = filter (\<lambda>d. \<exists>s. ident d = Some s \<and> isIndicatorCode s) payload
   \<and> (\<forall>d. d \<in> set (loadData payload) \<longleftrightarrow>
            d \<in> set payload \<and> (\<exists>s. ident d = Some s \<and> isIndicatorCode s))"
proof -
  have "filter isIndicator payload =
      filter (\<lambda>d. \<exists>s. ident d = Some s \<and> isIndicatorCode s) payload"
    by (rule filter_cong) (simp_all add: isIndicator_iff)
  then show ?thesis by (auto simp: loadData_def)
qed

theorem C8_loader_keeps_indicators_witness:
  "loadData samplePayload = [blank, blank\<lparr>ident := Some (ascii ''G-12'')\<rparr>]
   \<and> isIndicatorCode (ascii ''G-12'') \<and> \<not> isIndicatorCode (ascii ''S-7a'')"
proof -
  have run: "loadData samplePayload = [blank, blank\<lparr>ident := Some (ascii ''G-12'')\<rparr>]"
    by (simp add: samplePayload_def loadData_def isIndicator_def indicatorPattern_def digit_def
        blank_def ascii_def)
  have spec: "d \<in> set (loadData samplePayload) \<longleftrightarrow>
      d \<in> set samplePayload \<and> (\<exists>s. ident d = Some s \<and> isIndicatorCode s)" for d
    using C8_loader_keeps_indicators [of samplePayload] by blast
  have "blank\<lparr>ident := Some (ascii ''G-12'')\<rparr> \<in> set (loadData samplePayload)"
    by (simp add: run)
  then have yes: "isIndicatorCode (ascii ''G-12'')"
    unfolding spec by simp
  have "blank\<lparr>ident := Some (ascii ''S-7a'')\<rparr> \<notin> set (loadData samplePayload)"
    by (simp add: run blank_def ascii_def)
  moreover have "blank\<lparr>ident := Some (ascii ''S-7a'')\<rparr> \<in> set samplePayload"
    by (simp add: samplePayload_def)
  ultimately have no: "\<not> isIndicatorCode (ascii ''S-7a'')"
    unfolding spec by simp
  from run yes no show ?thesis by simp
qed

subsection \<open>Filter engine\<close>

lemma filterBoolean_eq: "filterBoolean vs = map the (filter present vs)"
  by (induction vs rule: filterBoolean.induct) (simp_all add: present_def)

lemma keeps_iff:
  "keeps lower c d \<longleftrightarrow>
     (filterFace c = [] \<or> face d = Some (filterFace c))
     \<and> (filterStatus c = [] \<or> statusTag d = Some (filterStatus c))
     \<and> (filterDept c = [] \<or> department d = Some (filterDept c))
     \<and> (trim (lower (searchInput c)) = []
        \<or> (\<exists>ps ss. haystack lower d = ps @ trim (lower (searchInput c)) @ ss))"
  by (auto simp: keeps_def Let_def includesStr_def sublist_def)

text \<open>
  The search text is trimmed after lower-casing: a search for \<open>' e-1'\<close> keeps a record
  whose folded text is \<open>'e-1'\<close>, in which the lower-cased search text itself does not
  occur.
\<close>

theorem C1_untrimmed_search_counterexample:
  "searchInput paddedSearch \<noteq> []
   \<and> applyFilters asciiLower paddedSearch [blank] = [blank]
   \<and> haystack asciiLower blank = ascii ''e-1''
   \<and> \<not> includesStr (haystack asciiLower blank) (asciiLower (searchInput paddedSearch))"
  by (simp add: paddedSearch_def applyFilters_def keeps_def Let_def haystack_def blank_def
      asciiLower_def trim_def isWhiteSpace_def includesStr_def sublist_code ascii_def)

text \<open>
  C1 (amended). The filtered set is a subsequence of the full record set, in its order,
  holding exactly the records that equal every non-empty criterion (face, status tag,
  department) and, when the lower-cased search text is non-empty after trimming white
  space from both ends, whose folded text contains that trimmed text. The folded text is
  the lower-cased join by a space of the identifier, title, description, prior-year
  self-evaluation note and department, in this order, leaving out the fields that are
  absent or empty.
\<close>

theorem C1_filter:
  "subseq (applyFilters lower c allData) allData
   \<and> applyFilters lower c allData =
       filter (\<lambda>d. (filterFace c = [] \<or> face d = Some (filterFace c))
                 \<and> (filterStatus c = [] \<or> statusTag d = Some (filterStatus c))
                 \<and> (filterDept c = [] \<or> department d = Some (filterDept c))
                 \<and> (trim (lower (searchInput c)) = []
                    \<or> (\<exists>ps ss. haystack lower d = ps @ trim (lower (searchInput c)) @ ss)))
         allData
   \<and> (\<forall>d. haystack lower d =
          lower (join [0x20] (map the (filter present
            [ident d, title d, description d, selfEvalNote d, department d]))))"
proof -
  have "applyFilters lower c allData =
       filter (\<lambda>d. (filterFace c = [] \<or> face d = Some (filterFace c))
                 \<and> (filterStatus c = [] \<or> statusTag d = Some (filterStatus c))
                 \<and> (filterDept c = [] \<or> department d = Some (filterDept c))
                 \<and> (trim (lower (searchInput c)) = []
                    \<or> (\<exists>ps ss. haystack lower d = ps @ trim (lower (searchInput c)) @ ss)))
         allData"
    unfolding applyFilters_def by (rule filter_cong) (simp_all only: keeps_iff)
  moreover have "subseq (applyFilters lower c allData) allData"
    unfolding applyFilters_def by (rule subseq_filter_left)
  moreover have "haystack lower d =
          lower (join [0x20] (map the (filter present
            [ident d, title d, description d, selfEvalNote d, department d])))" for d
    unfolding haystack_def filterBoolean_eq ..
  ultimately show ?thesis by blast
qed

theorem C1_filter_witness:
  "applyFilters asciiLower waterSearch [boardRecord, waterRecord, blank] = [waterRecord]
   \<and> subseq [waterRecord] [boardRecord, waterRecord, blank]
   \<and> haystack asciiLower waterRecord = ascii ''e-1 water use finance''"
proof -
  have run: "applyFilters asciiLower waterSearch [boardRecord, waterRecord, blank] = [waterRecord]"
    by (simp add: waterSearch_def applyFilters_def keeps_def Let_def haystack_def blank_def
        waterRecord_def boardRecord_def asciiLower_def trim_def isWhiteSpace_def
        includesStr_def sublist_code ascii_def)
  have hay: "haystack asciiLower waterRecord = ascii ''e-1 water use finance''"
    by (simp add: haystack_def waterRecord_def blank_def asciiLower_def ascii_def)
  from C1_filter [of asciiLower waterSearch "[boardRecord, waterRecord, blank]"]
  have "subseq (applyFilters asciiLower waterSearch [boardRecord, waterRecord, blank])
          [boardRecord, waterRecord, blank]" by (rule conjunct1)
  with run hay show ?thesis by simp
qed

subsection \<open>Export\<close>

lemma foldl_append_concat:
  "foldl (\<lambda>acc d. acc @ f d) init ds = init @ concat (map f ds)"
  by (induction ds arbitrary: init) simp_all

lemma escape_one_pass:
  "newlineToSpace (doubleQuotes s) =
     concat (map (\<lambda>c. if c = 0x22 then [0x22, 0x22] else if c = 0x0A then [0x20] else [c]) s)"
  by (induction s) (simp_all add: newlineToSpace_def doubleQuotes_def)

lemma csvRow_cells:
  "csvRow d = join [0x2C] (map csvCell [ident d, statusTag d, face d, title d, questionType d,
                                         scoreText d, department d, selfEvalNote d])"
  by (simp add: csvRow_def headers_def)

text \<open>
  Every row is followed by a newline, the last one too: the export of one record is not
  the join of the header row and the record's row by a newline.
\<close>

theorem C6_trailing_newline_counterexample:
  "exportCSV [blank] = [0xFEFF] @ join [0x0A] [csvHeader, csvRow blank] @ [0x0A]
   \<and> exportCSV [blank] \<noteq> [0xFEFF] @ join [0x0A] [csvHeader, csvRow blank]"
  by (simp add: exportCSV_def)

text \<open>
  C6 (amended). The export is the byte-order mark, the header row of the eight column
  keys, then one row per filtered record in the filtered order, every row (the header
  row too) followed by a newline. A row is its eight cells joined by commas; a cell is
  the field's text between quotes, with every quote doubled and every newline replaced
  by one space; an absent field gives the empty cell.
\<close>

theorem C6_export_csv:
  "exportCSV filteredData =
     [0xFEFF] @ csvHeader @ [0x0A] @ concat (map (\<lambda>d. csvRow d @ [0x0A]) filteredData)
   \<and> length headers = 8
   \<and> csvHeader = join [0x2C] (map fst headers)
   \<and> (\<forall>d. csvRow d =
         join [0x2C] (map csvCell [ident d, statusTag d, face d, title d, questionType d,
                                   scoreText d, department d, selfEvalNote d]))
   \<and> csvCell None = [0x22, 0x22]
   \<and> (\<forall>s. csvCell (Some s) =
         [0x22] @ concat (map (\<lambda>c. if c = 0x22 then [0x22, 0x22]
                                     else if c = 0x0A then [0x20] else [c]) s) @ [0x22])"
proof -
  have "exportCSV filteredData =
     [0xFEFF] @ csvHeader @ [0x0A] @ concat (map (\<lambda>d. csvRow d @ [0x0A]) filteredData)"
    by (simp add: exportCSV_def foldl_append_concat)
  moreover have "length headers = 8" by (simp add: headers_def)
  moreover have "csvCell None = [0x22, 0x22]"
    by (simp add: csvCell_def orElse_def newlineToSpace_def doubleQuotes_def)
  moreover have "csvCell (Some s) =
         [0x22] @ concat (map (\<lambda>c. if c = 0x22 then [0x22, 0x22]
                                     else if c = 0x0A then [0x20] else [c]) s) @ [0x22]" for s
    by (cases s) (simp_all add: csvCell_def orElse_def escape_one_pass)
  ultimately show ?thesis by (simp add: csvHeader_def csvRow_cells)
qed

theorem C6_export_csv_witness:
  "csvRow quotedTitle =
     [0x22] @ ascii ''E-1'' @ [0x22, 0x2C, 0x22, 0x22, 0x2C, 0x22, 0x22, 0x2C,
      0x22, 0x61, 0x22, 0x22, 0x62, 0x20, 0x63, 0x22, 0x2C,
      0x22, 0x22, 0x2C, 0x22, 0x22, 0x2C, 0x22, 0x22, 0x2C, 0x22, 0x22]
   \<and> exportCSV [quotedTitle] = [0xFEFF] @ csvHeader @ [0x0A] @ csvRow quotedTitle @ [0x0A]
   \<and> csvCell (department quotedTitle) = [0x22, 0x22]
   \<and> csvCell (title quotedTitle) = [0x22, 0x61, 0x22, 0x22, 0x62, 0x20, 0x63, 0x22]"
proof -
  note spec = C6_export_csv [of "[quotedTitle]"]
  have row: "csvRow quotedTitle =
      join [0x2C] (map csvCell [ident quotedTitle, statusTag quotedTitle, face quotedTitle,
        title quotedTitle, questionType quotedTitle, scoreText quotedTitle,
        department quotedTitle, selfEvalNote quotedTitle])"
    using spec by blast
  have cellN: "csvCell None = [0x22, 0x22]" using spec by blast
  have cellS: "csvCell (Some s) =
         [0x22] @ concat (map (\<lambda>c. if c = 0x22 then [0x22, 0x22]
                                     else if c = 0x0A then [0x20] else [c]) s) @ [0x22]" for s
    using spec by blast
  have out: "exportCSV [quotedTitle] =
      [0xFEFF] @ csvHeader @ [0x0A] @ concat (map (\<lambda>d. csvRow d @ [0x0A]) [quotedTitle])"
    using spec by blast
  have "csvRow quotedTitle =
     [0x22] @ ascii ''E-1'' @ [0x22, 0x2C, 0x22, 0x22, 0x2C, 0x22, 0x22, 0x2C,
      0x22, 0x61, 0x22, 0x22, 0x62, 0x20, 0x63, 0x22, 0x2C,
      0x22, 0x22, 0x2C, 0x22, 0x22, 0x2C, 0x22, 0x22, 0x2C, 0x22, 0x22]"
    unfolding row by (simp add: quotedTitle_def blank_def cellN cellS ascii_def)
  moreover have "csvCell (department quotedTitle) = [0x22, 0x22]"
    by (simp add: quotedTitle_def blank_def cellN)
  moreover have "csvCell (title quotedTitle) = [0x22, 0x61, 0x22, 0x22, 0x62, 0x20, 0x63, 0x22]"
    by (simp add: quotedTitle_def blank_def cellS)
  moreover have "exportCSV [quotedTitle] = [0xFEFF] @ csvHeader @ [0x0A] @ csvRow quotedTitle @ [0x0A]"
    using out by simp
  ultimately show ?thesis by blast
qed

subsection \<open>Board grouping and key order\<close>

lemma groupByDept_snoc:
  "groupByDept (ds @ [d]) = pushTo (groupKey d) d (groupByDept ds)"
  by (simp add: groupByDept_def)

lemma map_of_pushTo:
  "map_of (pushTo k d g) k' =
     (if k' = k then Some ((case map_of g k of None \<Rightarrow> [] | Some ds \<Rightarrow> ds) @ [d])
      else map_of g k')"
  by (induction g) auto

lemma keys_pushTo: "set (map fst (pushTo k d g)) = insert k (set (map fst g))"
proof (induction g)
  case Nil
  show ?case by simp
next
  case (Cons p g)
  obtain k' ds where p: "p = (k', ds)" by (cases p)
  show ?case
  proof (cases "k' = k")
    case True
    then show ?thesis by (simp add: p insert_absorb)
  next
    case False
    then show ?thesis using Cons by (simp add: p insert_commute)
  qed
qed

lemma distinct_pushTo:
  "distinct (map fst g) \<Longrightarrow> distinct (map fst (pushTo k d g))"
proof (induction g)
  case Nil
  show ?case by simp
next
  case (Cons p g)
  obtain k' ds where p: "p = (k', ds)" by (cases p)
  from Cons.prems have "k' \<notin> set (map fst g)" and "distinct (map fst g)"
    by (simp_all add: p)
  with Cons.IH show ?case
    using keys_pushTo [of k d g] by (auto simp: p simp del: set_map)
qed

lemma keys_groupByDept: "set (map fst (groupByDept ds)) = groupKey ` set ds"
proof (induction ds rule: rev_induct)
  case Nil
  show ?case by (simp add: groupByDept_def)
next
  case (snoc d ds)
  then show ?case unfolding groupByDept_snoc keys_pushTo by simp
qed

lemma distinct_groupByDept: "distinct (map fst (groupByDept ds))"
  by (induction ds rule: rev_induct) (simp_all add: groupByDept_snoc distinct_pushTo groupByDept_def)

lemma map_of_groupByDept:
  "map_of (groupByDept ds) k =
     (if k \<in> groupKey ` set ds then Some (filter (\<lambda>d. groupKey d = k) ds) else None)"
proof (induction ds rule: rev_induct)
  case Nil
  show ?case by (simp add: groupByDept_def)
next
  case (snoc d ds)
  show ?case
  proof (cases "k = groupKey d")
    case True
    have "groupKey d \<notin> groupKey ` set ds \<Longrightarrow> filter (\<lambda>e. groupKey e = groupKey d) ds = []"
      by (force simp: filter_empty_conv image_iff)
    with snoc True show ?thesis
      by (simp add: groupByDept_snoc map_of_pushTo)
  next
    case False
    then show ?thesis by (auto simp: groupByDept_snoc map_of_pushTo snoc)
  qed
qed

lemma set_insertBy: "set (insertBy cmp x xs) = insert x (set xs)"
  by (induction xs) auto

lemma distinct_insertBy: "distinct (insertBy cmp x xs) \<longleftrightarrow> x \<notin> set xs \<and> distinct xs"
  by (induction xs) (auto simp: set_insertBy)

lemma sortBy_Cons: "sortBy cmp (x # xs) = insertBy cmp x (sortBy cmp xs)"
  by (simp add: sortBy_def)

lemma set_sortBy: "set (sortBy cmp xs) = set xs"
  by (induction xs) (simp_all add: sortBy_Cons set_insertBy, simp add: sortBy_def)

lemma distinct_sortBy: "distinct (sortBy cmp xs) \<longleftrightarrow> distinct xs"
  by (induction xs) (simp_all add: sortBy_Cons distinct_insertBy set_sortBy, simp add: sortBy_def)

lemma set_sortedKeys: "set (sortedKeys lc (groupByDept ds)) = groupKey ` set ds"
  by (simp add: sortedKeys_def set_sortBy keys_groupByDept del: set_map)

lemma distinct_sortedKeys: "distinct (sortedKeys lc (groupByDept ds))"
  by (simp add: sortedKeys_def distinct_sortBy distinct_groupByDept)

lemma sum_filter_lengths:
  "finite K \<Longrightarrow> f ` set xs \<subseteq> K \<Longrightarrow> (\<Sum>k\<in>K. length (filter (\<lambda>d. f d = k) xs)) = length xs"
proof (induction xs)
  case Nil
  show ?case by simp
next
  case (Cons x xs)
  have "(\<Sum>k\<in>K. length (filter (\<lambda>d. f d = k) (x # xs))) =
        (\<Sum>k\<in>K. length (filter (\<lambda>d. f d = k) xs) + (if f x = k then 1 else 0))"
    by (rule sum.cong) simp_all
  also have "\<dots> = (\<Sum>k\<in>K. length (filter (\<lambda>d. f d = k) xs)) + (\<Sum>k\<in>K. if f x = k then 1 else 0)"
    by (rule sum.distrib)
  also have "(\<Sum>k\<in>K. if f x = k then 1 else 0) = (1::nat)"
    using Cons.prems by (simp add: sum.delta')
  finally show ?case using Cons by simp
qed

lemma renderKanban_columns:
  "renderKanban lc ds =
     map (\<lambda>k. (k, Some (filter (\<lambda>d. groupKey d = k) ds))) (sortedKeys lc (groupByDept ds))"
  unfolding renderKanban_def Let_def
  by (rule map_cong) (simp_all add: map_of_groupByDept set_sortedKeys)

text \<open>
  C9. The columns of the board partition the filtered set: the column titles are
  pairwise distinct, every record's group key (its department, or the sentinel when the
  department is absent or empty) is the title of a column, the members of a column are
  exactly the filtered records with that key, in filtered order, and the member counts
  add up to the length of the filtered set.
\<close>

theorem C9_grouping_partition:
  "distinct (map fst (renderKanban lc filteredData))
   \<and> (\<forall>d \<in> set filteredData. groupKey d \<in> fst ` set (renderKanban lc filteredData))
   \<and> (\<forall>col \<in> set (renderKanban lc filteredData).
         snd col = Some (filter (\<lambda>d. groupKey d = fst col) filteredData)
         \<and> (\<exists>d \<in> set filteredData. groupKey d = fst col))
   \<and> sum_list (map columnCount (renderKanban lc filteredData)) = length filteredData
   \<and> (\<forall>d. groupKey d = (case department d of
                            None \<Rightarrow> unassigned
                          | Some s \<Rightarrow> if s = [] then unassigned else s))"
proof -
  let ?ks = "sortedKeys lc (groupByDept filteredData)"
  let ?items = "\<lambda>k. filter (\<lambda>d. groupKey d = k) filteredData"
  have titles: "map fst (renderKanban lc filteredData) = ?ks"
    by (simp add: renderKanban_columns comp_def)
  have 1: "distinct (map fst (renderKanban lc filteredData))"
    by (simp add: titles distinct_sortedKeys)
  have 2: "\<forall>d \<in> set filteredData. groupKey d \<in> fst ` set (renderKanban lc filteredData)"
    using titles set_sortedKeys [of lc filteredData] by (metis image_eqI list.set_map)
  have 3: "\<forall>col \<in> set (renderKanban lc filteredData).
         snd col = Some (?items (fst col)) \<and> (\<exists>d \<in> set filteredData. groupKey d = fst col)"
    by (auto simp: renderKanban_columns set_sortedKeys)
  have "sum_list (map columnCount (renderKanban lc filteredData)) =
        sum_list (map (\<lambda>k. length (?items k)) ?ks)"
    by (simp add: renderKanban_columns comp_def columnCount_def)
  also have "\<dots> = (\<Sum>k \<in> set ?ks. length (?items k))"
    by (rule sum_list_distinct_conv_sum_set) (rule distinct_sortedKeys)
  also have "\<dots> = length filteredData"
    by (rule sum_filter_lengths) (simp_all add: set_sortedKeys)
  finally have 4: "sum_list (map columnCount (renderKanban lc filteredData)) = length filteredData" .
  have 5: "\<forall>d. groupKey d = (case department d of
                            None \<Rightarrow> unassigned
                          | Some s \<Rightarrow> if s = [] then unassigned else s)"
    by (simp add: groupKey_def orElse_def split: option.splits)
  from 1 2 3 4 5 show ?thesis by blast
qed

theorem C9_grouping_partition_witness:
  "renderKanban codeUnitCompare boardSample =
     [(ascii ''Audit'', Some [auditRecord]),
      (ascii ''Finance'', Some [financeRecord, financeRecord]),
      (unassigned, Some [blank, emptyDeptRecord])]
   \<and> sum_list (map columnCount (renderKanban codeUnitCompare boardSample)) = 5"
proof -
  have run: "renderKanban codeUnitCompare boardSample =
     [(ascii ''Audit'', Some [auditRecord]),
      (ascii ''Finance'', Some [financeRecord, financeRecord]),
      (unassigned, Some [blank, emptyDeptRecord])]"
    by (simp add: renderKanban_def Let_def groupByDept_def groupKey_def orElse_def
        sortedKeys_def sortBy_def keyCompare_def boardSample_def financeRecord_def
        auditRecord_def emptyDeptRecord_def blank_def unassigned_def ascii_def)
  from C9_grouping_partition [of codeUnitCompare boardSample]
  have "sum_list (map columnCount (renderKanban codeUnitCompare boardSample)) = length boardSample"
    by blast
  then have "sum_list (map columnCount (renderKanban codeUnitCompare boardSample)) = 5"
    by (simp add: boardSample_def)
  with run show ?thesis by blast
qed

lemma insertBy_sentinel: "insertBy (keyCompare lc) unassigned xs = xs @ [unassigned]"
  by (induction xs) (simp_all add: keyCompare_def)

lemma filter_eq_snoc: "filter (\<lambda>k. k = u) xs @ [u] = u # filter (\<lambda>k. k = u) xs"
  by (induction xs) auto

lemma insertBy_keyCompare:
  assumes "x \<noteq> unassigned" and "unassigned \<notin> set A" and "\<forall>b \<in> set B. b = unassigned"
  shows "insertBy (keyCompare lc) x (A @ B) = insertBy lc x A @ B"
  using assms(2)
proof (induction A)
  case Nil
  show ?case
  proof (cases B)
    case Nil
    then show ?thesis by simp
  next
    case (Cons b B')
    with assms(3) have "b = unassigned" by simp
    with assms(1) Cons show ?thesis by (simp add: keyCompare_def)
  qed
next
  case (Cons a A)
  then have "a \<noteq> unassigned" and "unassigned \<notin> set A" by auto
  with Cons.IH assms(1) show ?case by (simp add: keyCompare_def)
qed

lemma sortBy_Nil: "sortBy cmp [] = []"
  by (simp add: sortBy_def)

lemma sortBy_keyCompare:
  "sortBy (keyCompare lc) xs =
     sortBy lc (filter (\<lambda>k. k \<noteq> unassigned) xs) @ filter (\<lambda>k. k = unassigned) xs"
proof (induction xs)
  case Nil
  show ?case by (simp add: sortBy_Nil)
next
  case (Cons x xs)
  show ?case
  proof (cases "x = unassigned")
    case True
    then show ?thesis
      by (simp add: sortBy_Cons Cons insertBy_sentinel filter_eq_snoc)
  next
    case False
    have "insertBy (keyCompare lc) x
            (sortBy lc (filter (\<lambda>k. k \<noteq> unassigned) xs) @ filter (\<lambda>k. k = unassigned) xs) =
          insertBy lc x (sortBy lc (filter (\<lambda>k. k \<noteq> unassigned) xs))
            @ filter (\<lambda>k. k = unassigned) xs"
      by (rule insertBy_keyCompare) (simp_all add: False set_sortBy)
    with False show ?thesis by (simp add: sortBy_Cons Cons)
  qed
qed

lemma sorted_insertBy:
  assumes total: "\<forall>a b. lc a b \<le> 0 \<or> lc b a \<le> 0"
    and trans: "\<forall>a b c. lc a b \<le> 0 \<and> lc b c \<le> 0 \<longrightarrow> lc a c \<le> 0"
    and "sorted_wrt (\<lambda>a b. lc a b \<le> 0) xs"
  shows "sorted_wrt (\<lambda>a b. lc a b \<le> 0) (insertBy lc x xs)"
  using assms(3)
proof (induction xs)
  case Nil
  show ?case by simp
next
  case (Cons y ys)
  show ?case
  proof (cases "lc x y \<le> 0")
    case True
    have "lc x z \<le> 0" if "z \<in> set ys" for z
    proof -
      from Cons.prems that have "lc y z \<le> 0" by simp
      with True trans show ?thesis by blast
    qed
    with True Cons.prems show ?thesis by simp
  next
    case False
    with total have "lc y x \<le> 0" by blast
    with False Cons show ?thesis by (simp add: set_insertBy)
  qed
qed

lemma sorted_sortBy:
  assumes "\<forall>a b. lc a b \<le> 0 \<or> lc b a \<le> 0"
    and "\<forall>a b c. lc a b \<le> 0 \<and> lc b c \<le> 0 \<longrightarrow> lc a c \<le> 0"
  shows "sorted_wrt (\<lambda>a b. lc a b \<le> 0) (sortBy lc xs)"
proof (induction xs)
  case Nil
  show ?case by (simp add: sortBy_Nil)
next
  case (Cons x xs)
  then show ?case unfolding sortBy_Cons by (rule sorted_insertBy [OF assms])
qed

lemma sortedKeys_split:
  "filter (\<lambda>k. k \<noteq> unassigned) (sortedKeys lc g) =
     sortBy lc (filter (\<lambda>k. k \<noteq> unassigned) (map fst g))"
  "filter (\<lambda>k. k = unassigned) (sortedKeys lc g) = filter (\<lambda>k. k = unassigned) (map fst g)"
proof -
  let ?A = "sortBy lc (filter (\<lambda>k. k \<noteq> unassigned) (map fst g))"
  let ?B = "filter (\<lambda>k. k = unassigned) (map fst g)"
  have A1: "filter (\<lambda>k. k \<noteq> unassigned) ?A = ?A"
    by (rule filter_True) (simp add: set_sortBy)
  have A2: "filter (\<lambda>k. k = unassigned) ?A = []"
    by (rule filter_False) (simp add: set_sortBy)
  have B1: "filter (\<lambda>k. k \<noteq> unassigned) ?B = []"
    by (rule filter_False) simp
  have B2: "filter (\<lambda>k. k = unassigned) ?B = ?B"
    by (rule filter_True) simp
  have ks: "sortedKeys lc g = ?A @ ?B"
    unfolding sortedKeys_def by (rule sortBy_keyCompare)
  show "filter (\<lambda>k. k \<noteq> unassigned) (sortedKeys lc g) = ?A"
    unfolding ks filter_append A1 B1 by simp
  show "filter (\<lambda>k. k = unassigned) (sortedKeys lc g) = ?B"
    unfolding ks filter_append A2 B2 by simp
qed

lemma codeUnitCompare_total: "codeUnitCompare a b \<le> 0 \<or> codeUnitCompare b a \<le> 0"
  by (induction a b rule: codeUnitCompare.induct) auto

lemma codeUnitCompare_trans:
  "codeUnitCompare a b \<le> 0 \<Longrightarrow> codeUnitCompare b c \<le> 0 \<Longrightarrow> codeUnitCompare a c \<le> 0"
proof (induction a b arbitrary: c rule: codeUnitCompare.induct)
  case 1
  then show ?case by simp
next
  case (2 y ys)
  then show ?case by (cases c) simp_all
next
  case (3 x xs)
  then show ?case by simp
next
  case (4 x xs y ys)
  show ?case
  proof (cases c)
    case Nil
    with 4 show ?thesis by simp
  next
    case (Cons z zs)
    with 4 show ?thesis by (auto split: if_splits)
  qed
qed

text \<open>
  C4. The ordered list of group keys holds every group key once; the keys other than
  the sentinel come first, sorted by the locale comparison (a total preorder), and the
  sentinel, when there is a group without department, is the last element. The columns
  of the board follow this order.
\<close>

theorem C4_sorted_keys:
  assumes "\<forall>a b. lc a b \<le> 0 \<or> lc b a \<le> 0"
    and "\<forall>a b c. lc a b \<le> 0 \<and> lc b c \<le> 0 \<longrightarrow> lc a c \<le> 0"
  shows "set (sortedKeys lc (groupByDept filteredData)) = groupKey ` set filteredData
    \<and> distinct (sortedKeys lc (groupByDept filteredData))
    \<and> sortedKeys lc (groupByDept filteredData) =
        filter (\<lambda>k. k \<noteq> unassigned) (sortedKeys lc (groupByDept filteredData))
        @ filter (\<lambda>k. k = unassigned) (sortedKeys lc (groupByDept filteredData))
    \<and> sorted_wrt (\<lambda>a b. lc a b \<le> 0)
        (filter (\<lambda>k. k \<noteq> unassigned) (sortedKeys lc (groupByDept filteredData)))
    \<and> (unassigned \<in> set (sortedKeys lc (groupByDept filteredData)) \<longrightarrow>
         last (sortedKeys lc (groupByDept filteredData)) = unassigned)
    \<and> map fst (renderKanban lc filteredData) = sortedKeys lc (groupByDept filteredData)"
proof -
  let ?g = "groupByDept filteredData"
  let ?ks = "sortedKeys lc ?g"
  let ?A = "filter (\<lambda>k. k \<noteq> unassigned) ?ks"
  let ?B = "filter (\<lambda>k. k = unassigned) ?ks"
  have split: "?ks = ?A @ ?B"
    unfolding sortedKeys_split by (simp add: sortedKeys_def sortBy_keyCompare)
  have sorted: "sorted_wrt (\<lambda>a b. lc a b \<le> 0) ?A"
    unfolding sortedKeys_split by (rule sorted_sortBy [OF assms])
  have last: "last ?ks = unassigned" if "unassigned \<in> set ?ks"
  proof -
    from that have "?B \<noteq> []" by (simp add: filter_empty_conv)
    then have "last ?B \<in> set ?B" by (rule last_in_set)
    then have "last ?B = unassigned" by simp
    moreover have "last (?A @ ?B) = last ?B" using \<open>?B \<noteq> []\<close> by (rule last_appendR)
    ultimately show ?thesis using split by simp
  qed
  have "map fst (renderKanban lc filteredData) = ?ks"
    by (simp add: renderKanban_columns comp_def)
  with split sorted last show ?thesis
    using set_sortedKeys [of lc filteredData] distinct_sortedKeys [of lc filteredData]
    by blast
qed

theorem C4_sorted_keys_witness:
  "sortedKeys codeUnitCompare (groupByDept boardSample)
     = [ascii ''Audit'', ascii ''Finance'', unassigned]
   \<and> last (sortedKeys codeUnitCompare (groupByDept boardSample)) = unassigned
   \<and> sorted_wrt (\<lambda>a b. codeUnitCompare a b \<le> 0) [ascii ''Audit'', ascii ''Finance'']"
proof -
  have total: "\<forall>a b. codeUnitCompare a b \<le> 0 \<or> codeUnitCompare b a \<le> 0"
    by (simp add: codeUnitCompare_total)
  have trans: "\<forall>a b c. codeUnitCompare a b \<le> 0 \<and> codeUnitCompare b c \<le> 0
      \<longrightarrow> codeUnitCompare a c \<le> 0"
    by (blast intro: codeUnitCompare_trans)
  note spec = C4_sorted_keys [OF total trans, of boardSample]
  have run: "sortedKeys codeUnitCompare (groupByDept boardSample)
     = [ascii ''Audit'', ascii ''Finance'', unassigned]"
    by (simp add: groupByDept_def groupKey_def orElse_def
        sortedKeys_def sortBy_def keyCompare_def boardSample_def financeRecord_def
        auditRecord_def emptyDeptRecord_def blank_def unassigned_def ascii_def)
  from spec have "unassigned \<in> set (sortedKeys codeUnitCompare (groupByDept boardSample)) \<longrightarrow>
         last (sortedKeys codeUnitCompare (groupByDept boardSample)) = unassigned" by blast
  then have l: "last (sortedKeys codeUnitCompare (groupByDept boardSample)) = unassigned"
    by (simp add: run)
  from spec have "sorted_wrt (\<lambda>a b. codeUnitCompare a b \<le> 0)
      (filter (\<lambda>k. k \<noteq> unassigned) (sortedKeys codeUnitCompare (groupByDept boardSample)))"
    by blast
  then have "sorted_wrt (\<lambda>a b. codeUnitCompare a b \<le> 0) [ascii ''Audit'', ascii ''Finance'']"
    by (simp add: run unassigned_def ascii_def)
  with run l show ?thesis by blast
qed

end
